theory Spec2Isabelle
  imports Main "HOL-Library.Word" "HOL-Library.Signed_Division" "HOL-Library.Sublist"
begin

section \<open>Data model\<close>

text \<open>
  The program of \<^verbatim>\<open>spreadsheet.go\<close> works on a value of type \<^verbatim>\<open>[][]string\<close>: a table is
  a sequence of rows, a row a sequence of text cells. The rows handed to \<^verbatim>\<open>calculate\<close> come
  from \<^verbatim>\<open>csv.Reader.ReadAll\<close>, which allocates every record on its own, so no two rows
  share a backing array and \<^verbatim>\<open>append\<close> on one row never writes into another; the model
  therefore uses lists with value semantics.

  Go's \<^verbatim>\<open>int\<close> is taken to be 64 bits wide (the 64-bit platforms): a two's complement machine
  word whose \<open>+\<close>, \<open>-\<close> and \<open>*\<close> wrap around silently.
\<close>

type_synonym go_int = "64 word"
type_synonym row = "string list"
type_synonym table = "row list"

text \<open>The two errors of \<^verbatim>\<open>strconv\<close>: \<^verbatim>\<open>ErrSyntax\<close> and \<^verbatim>\<open>ErrRange\<close>.\<close>

datatype num_err = ErrSyntax | ErrRange

text \<open>\<^verbatim>\<open>strconv.NumError{Func, Num, Err}\<close>.\<close>

datatype NumError = NumError (Func: string) (Num: string) (Err: num_err)

text \<open>
  Every way the program stops without returning: the calls of \<^verbatim>\<open>log.Fatalf\<close> (one
  constructor per call site, carrying the arguments of the format), and the run-time panic of
  an index expression out of range.
\<close>

datatype abort =
    CannotRetrievePrice string NumError
  | CannotRetrieveQuantity string NumError
  | CannotOpen string string
  | CannotClose string string
  | IndexOutOfRange nat nat

section \<open>The library functions the program calls\<close>

subsection \<open>\<^verbatim>\<open>strconv.Atoi\<close>\<close>

definition is_digit :: "char \<Rightarrow> bool" where
  "is_digit c = (c \<in> set ''0123456789'')"

definition digit_val :: "char \<Rightarrow> int" where
  "digit_val c = of_char c - 48"

text \<open>
  The digit loop of \<^verbatim>\<open>strconv.ParseUint\<close> in base 10 at 64 bits: a byte that is no digit
  is a syntax error, a value that leaves the unsigned 64-bit range a range error, whichever
  comes first from the left.
\<close>

fun parse_digits :: "int \<Rightarrow> string \<Rightarrow> num_err + int" where
  "parse_digits n [] = Inr n"
| "parse_digits n (c # cs) =
     (if \<not> is_digit c then Inl ErrSyntax
      else if 2 ^ 64 \<le> n * 10 + digit_val c then Inl ErrRange
      else parse_digits (n * 10 + digit_val c) cs)"

text \<open>
  \<^verbatim>\<open>strconv.Atoi(s)\<close>, that is \<^verbatim>\<open>ParseInt(s, 10, 0)\<close>: the empty string is a syntax error;
  one leading \<^verbatim>\<open>+\<close> or \<^verbatim>\<open>-\<close> is taken off; what remains must be one digit at least and digits
  only; the value must fit the signed 64-bit range.
\<close>

definition Atoi :: "string \<Rightarrow> NumError + go_int" where
  "Atoi s =
     (case s of
        [] \<Rightarrow> Inl (NumError ''Atoi'' s ErrSyntax)
      | c # cs \<Rightarrow>
          (let neg = (c = CHR ''-'');
               body = (if c = CHR ''+'' \<or> c = CHR ''-'' then cs else s)
           in if body = [] then Inl (NumError ''Atoi'' s ErrSyntax)
              else (case parse_digits 0 body of
                      Inl e \<Rightarrow> Inl (NumError ''Atoi'' s e)
                    | Inr un \<Rightarrow>
                        if \<not> neg \<and> 2 ^ 63 \<le> un then Inl (NumError ''Atoi'' s ErrRange)
                        else if neg \<and> 2 ^ 63 < un then Inl (NumError ''Atoi'' s ErrRange)
                        else Inr (if neg then - word_of_int un else word_of_int un))))"

subsection \<open>\<^verbatim>\<open>strings.Replace(s, ".", "", -1)\<close>\<close>

definition Replace_dot :: "string \<Rightarrow> string" where
  "Replace_dot s = filter (\<lambda>c. c \<noteq> CHR ''.'') s"

subsection \<open>The verb \<^verbatim>\<open>%d\<close> of \<^verbatim>\<open>fmt\<close> and \<^verbatim>\<open>fmt.Sprint\<close> on an \<^verbatim>\<open>int\<close>\<close>

definition digit_char :: "int \<Rightarrow> char" where
  "digit_char d = char_of (48 + d)"

function decimal :: "int \<Rightarrow> string" where
  "decimal n = (if n < 10 then [digit_char n] else decimal (n div 10) @ [digit_char (n mod 10)])"
  by pat_completeness auto
termination
  by (relation "measure nat") auto

declare decimal.simps [simp del]

definition Sprint :: "go_int \<Rightarrow> string" where
  "Sprint n = (if sint n < 0 then CHR ''-'' # decimal (- sint n) else decimal (sint n))"

subsection \<open>Integer division of Go\<close>

text \<open>The quotient of \<^verbatim>\<open>/\<close> on \<^verbatim>\<open>int\<close> is truncated towards zero.\<close>

definition go_div :: "go_int \<Rightarrow> go_int \<Rightarrow> go_int" where
  "go_div a b = word_of_int (sint a sdiv sint b)"

subsection \<open>Index expressions\<close>

text \<open>\<^verbatim>\<open>xs[i]\<close> panics when \<^verbatim>\<open>i\<close> is not below \<^verbatim>\<open>len(xs)\<close>.\<close>

definition index :: "'a list \<Rightarrow> nat \<Rightarrow> abort + 'a" where
  "index xs i = (if i < length xs then Inr (xs ! i) else Inl (IndexOutOfRange i (length xs)))"

section \<open>\<^verbatim>\<open>intToFloatString\<close>\<close>

definition intToFloatString :: "go_int \<Rightarrow> string" where
  "intToFloatString n =
     (let intgr = go_div n 100;
          frac = n - intgr * 100
      in Sprint intgr @ ''.'' @ Sprint frac)"

section \<open>\<^verbatim>\<open>calculate\<close>\<close>

text \<open>
  The state of the loop is the table \<^verbatim>\<open>rows\<close>, whose rows the body replaces in place, and
  the two counters \<^verbatim>\<open>sum\<close> (here \<open>sm\<close>) and \<^verbatim>\<open>nb\<close>.

  The body at index \<^verbatim>\<open>i\<close>. At \<^verbatim>\<open>i == 0\<close> the header row gets the label \<^verbatim>\<open>Total\<close>. At any
  other index the item name, the price and the quantity are read from the cells 2, 3 and 4
  of the row, in this order, each index expression and each conversion stopping the run when
  it fails; the total is appended to the row and the counters are updated.
\<close>

definition for_body :: "nat \<Rightarrow> table \<times> go_int \<times> go_int \<Rightarrow> abort + (table \<times> go_int \<times> go_int)" where
  "for_body i st =
     (case st of (rows, sm, nb) \<Rightarrow>
      if i = 0 then Inr (rows[0 := rows ! 0 @ [''Total'']], sm, nb)
      else
     (case index (rows ! i) 2 of Inl e \<Rightarrow> Inl e | Inr item \<Rightarrow>
     (case index (rows ! i) 3 of Inl e \<Rightarrow> Inl e | Inr cell3 \<Rightarrow>
     (case Atoi (Replace_dot cell3) of Inl err \<Rightarrow> Inl (CannotRetrievePrice item err) | Inr price \<Rightarrow>
     (case index (rows ! i) 4 of Inl e \<Rightarrow> Inl e | Inr cell4 \<Rightarrow>
     (case Atoi cell4 of Inl err \<Rightarrow> Inl (CannotRetrieveQuantity item err) | Inr qty \<Rightarrow>
        (let total = price * qty
         in Inr (rows[i := rows ! i @ [intToFloatString total]],
                 sm + total,
                 if item = ''Ball Pen'' then nb + qty else nb))))))))"

text \<open>
  \<^verbatim>\<open>for i := range rows\<close>: the length \<open>n\<close> of the table is taken once, and the body runs for
  \<open>i = 0, \<dots>, n - 1\<close>, so every \<open>rows ! i\<close> of the body is within range.
\<close>

function for_range :: "nat \<Rightarrow> nat \<Rightarrow> table \<times> go_int \<times> go_int \<Rightarrow> abort + (table \<times> go_int \<times> go_int)" where
  "for_range n i st =
     (if i < n
      then (case for_body i st of Inl e \<Rightarrow> Inl e | Inr st' \<Rightarrow> for_range n (Suc i) st')
      else Inr st)"
  by pat_completeness auto
termination
  by (relation "measure (\<lambda>(n, i, st). n - i)") auto

declare for_range.simps [simp del]

text \<open>The whole function: the loop from \<^verbatim>\<open>sum := 0\<close> and \<^verbatim>\<open>nb := 0\<close>, then the two appended rows.\<close>

definition calculate :: "table \<Rightarrow> abort + table" where
  "calculate rows =
     (case for_range (length rows) 0 (rows, 0, 0) of
        Inl e \<Rightarrow> Inl e
      | Inr (rows', sm, nb) \<Rightarrow>
          Inr (rows' @ [['''', '''', '''', ''Sum'', '''', intToFloatString sm],
                        ['''', '''', '''', ''Ball Pens'', Sprint nb, '''']]))"

section \<open>\<^verbatim>\<open>writeOrders\<close> and \<^verbatim>\<open>main\<close>\<close>

text \<open>
  What the operating system answers to the three calls \<^verbatim>\<open>writeOrders\<close> makes:
  \<^verbatim>\<open>os.Create\<close>, \<^verbatim>\<open>csv.Writer.WriteAll\<close> (which writes every record and flushes) and
  \<^verbatim>\<open>File.Close\<close>. \<open>None\<close> is the \<^verbatim>\<open>nil\<close> error, \<open>Some e\<close> an error with text \<open>e\<close>.
\<close>

record os_env =
  create_err :: "string option"
  write_err :: "string option"
  close_err :: "string option"

text \<open>
  What is left on disk under the output name: the whole table, or a file whose contents are
  not known because writing or flushing failed.
\<close>

datatype file_content = Complete table | Incomplete

text \<open>
  The result of a run is the abort that ended it (\<open>None\<close> when the function returned
  normally) and the file it left (\<open>None\<close> when it created none).

  In the source the error of \<^verbatim>\<open>WriteAll\<close> is assigned to \<^verbatim>\<open>err\<close> and never read again;
  the deferred closure then closes the file.
\<close>

definition writeOrders :: "os_env \<Rightarrow> string \<Rightarrow> table \<Rightarrow> abort option \<times> file_content option" where
  "writeOrders env name rows =
     (case create_err env of
        Some e \<Rightarrow> (Some (CannotOpen name e), None)
      | None \<Rightarrow>
          (let content = (case write_err env of None \<Rightarrow> Complete rows | Some e \<Rightarrow> Incomplete)
           in (case close_err env of
                 Some e \<Rightarrow> (Some (CannotClose name e), Some content)
               | None \<Rightarrow> (None, Some content))))"

text \<open>
  \<^verbatim>\<open>main\<close> from the point where \<^verbatim>\<open>readOrders\<close> has returned \<open>rows\<close>: \<^verbatim>\<open>log.Fatalf\<close>
  and a panic end the process, so \<^verbatim>\<open>writeOrders\<close> runs only when \<^verbatim>\<open>calculate\<close> returns.
\<close>

definition main :: "os_env \<Rightarrow> table \<Rightarrow> abort option \<times> file_content option" where
  "main env rows =
     (case calculate rows of
        Inl e \<Rightarrow> (Some e, None)
      | Inr rows' \<Rightarrow> writeOrders env ''ordersReport.csv'' rows')"

subsection \<open>The text of the messages\<close>

text \<open>
  \<^verbatim>\<open>NumError.Error()\<close>; \<open>quote\<close> stands for \<^verbatim>\<open>strconv.Quote\<close>, whose escaping rules no
  property below depends on.
\<close>

definition NumError_Error :: "(string \<Rightarrow> string) \<Rightarrow> NumError \<Rightarrow> string" where
  "NumError_Error quote e =
     ''strconv.'' @ Func e @ '': parsing '' @ quote (Num e) @ '': '' @
     (case Err e of ErrSyntax \<Rightarrow> ''invalid syntax'' | ErrRange \<Rightarrow> ''value out of range'')"

text \<open>The formats of the \<^verbatim>\<open>log.Fatalf\<close> calls, and the text of the run-time panic.\<close>

fun message :: "(string \<Rightarrow> string) \<Rightarrow> abort \<Rightarrow> string" where
  "message quote (CannotRetrievePrice item err) =
     ''Cannot retrieve price of '' @ item @ '': '' @ NumError_Error quote err @ [CHR 0x0A]"
| "message quote (CannotRetrieveQuantity item err) =
     ''Cannot retrieve quantity of '' @ item @ '': '' @ NumError_Error quote err @ [CHR 0x0A]"
| "message quote (CannotOpen name e) =
     ''Cannot open '' @ [CHR 0x27] @ name @ [CHR 0x27] @ '': '' @ e @ [CHR 0x0A]"
| "message quote (CannotClose name e) =
     ''Cannot close '' @ [CHR 0x27] @ name @ [CHR 0x27] @ '': '' @ e @ [CHR 0x0A]"
| "message quote (IndexOutOfRange i n) =
     ''runtime error: index out of range ['' @ decimal (int i) @ ''] with length '' @ decimal (int n)"

text \<open>Whether an abort is one of the \<^verbatim>\<open>log.Fatalf\<close> calls of \<^verbatim>\<open>calculate\<close>.\<close>

fun is_parse_fatal :: "abort \<Rightarrow> bool" where
  "is_parse_fatal (CannotRetrievePrice item err) = True"
| "is_parse_fatal (CannotRetrieveQuantity item err) = True"
| "is_parse_fatal _ = False"

section \<open>The loop seen row by row\<close>

text \<open>
  The body at an index other than 0 reads and writes the row at that index only. What it does
  to that row and to the counters:
\<close>

definition loop_body :: "row \<Rightarrow> go_int \<times> go_int \<Rightarrow> abort + (row \<times> go_int \<times> go_int)" where
  "loop_body r acc =
     (case acc of (sm, nb) \<Rightarrow>
     (case index r 2 of Inl e \<Rightarrow> Inl e | Inr item \<Rightarrow>
     (case index r 3 of Inl e \<Rightarrow> Inl e | Inr cell3 \<Rightarrow>
     (case Atoi (Replace_dot cell3) of Inl err \<Rightarrow> Inl (CannotRetrievePrice item err) | Inr price \<Rightarrow>
     (case index r 4 of Inl e \<Rightarrow> Inl e | Inr cell4 \<Rightarrow>
     (case Atoi cell4 of Inl err \<Rightarrow> Inl (CannotRetrieveQuantity item err) | Inr qty \<Rightarrow>
        (let total = price * qty
         in Inr (r @ [intToFloatString total],
                 sm + total,
                 if item = ''Ball Pen'' then nb + qty else nb))))))))"

text \<open>The same over a list of data rows, from the first to the last.\<close>

fun loop :: "table \<Rightarrow> go_int \<times> go_int \<Rightarrow> abort + (table \<times> go_int \<times> go_int)" where
  "loop [] acc = Inr ([], acc)"
| "loop (r # rest) acc =
     (case loop_body r acc of
        Inl e \<Rightarrow> Inl e
      | Inr (r', acc') \<Rightarrow>
          (case loop rest acc' of
             Inl e \<Rightarrow> Inl e
           | Inr (rest', acc'') \<Rightarrow> Inr (r' # rest', acc'')))"

section \<open>Vocabulary of the specification\<close>

text \<open>A cell parses when \<^verbatim>\<open>strconv.Atoi\<close> returns no error for it.\<close>

definition parses :: "string \<Rightarrow> bool" where
  "parses s = (case Atoi s of Inl _ \<Rightarrow> False | Inr _ \<Rightarrow> True)"

text \<open>
  A data row parses when it has a UnitPrice cell (index 3) that parses once its decimal
  separators are removed, and a Quantity cell (index 4) that parses.
\<close>

definition row_parses :: "row \<Rightarrow> bool" where
  "row_parses r = (4 < length r \<and> parses (Replace_dot (r ! 3)) \<and> parses (r ! 4))"

text \<open>The integer values of a row that parses: price in cents, quantity, and their product.\<close>

definition row_price :: "row \<Rightarrow> go_int" where
  "row_price r = (case Atoi (Replace_dot (r ! 3)) of Inl _ \<Rightarrow> 0 | Inr p \<Rightarrow> p)"

definition row_qty :: "row \<Rightarrow> go_int" where
  "row_qty r = (case Atoi (r ! 4) of Inl _ \<Rightarrow> 0 | Inr q \<Rightarrow> q)"

definition row_total :: "row \<Rightarrow> go_int" where
  "row_total r = row_price r * row_qty r"

definition is_ball_pen :: "row \<Rightarrow> bool" where
  "is_ball_pen r = (r ! 2 = ''Ball Pen'')"

text \<open>
  The first cell of a row that fails to parse, when the row has one: the UnitPrice cell, or
  the Quantity cell after a UnitPrice cell that parsed.
\<close>

definition price_cell_fails :: "row \<Rightarrow> bool" where
  "price_cell_fails r = (3 < length r \<and> \<not> parses (Replace_dot (r ! 3)))"

definition qty_cell_fails :: "row \<Rightarrow> bool" where
  "qty_cell_fails r = (4 < length r \<and> parses (Replace_dot (r ! 3)) \<and> \<not> parses (r ! 4))"

text \<open>The value of a string of decimal digits, and whether a string is one.\<close>

definition all_digits :: "string \<Rightarrow> bool" where
  "all_digits s = list_all is_digit s"

definition digits_value :: "string \<Rightarrow> int" where
  "digits_value s = foldl (\<lambda>n c. n * 10 + digit_val c) 0 s"

text \<open>
  A price written \<open>a.b\<close> is worth \<open>a + b / 10 ^ length b\<close> units, that is
  \<open>100 * (a * 10 ^ length b + b) / 10 ^ length b\<close> cents; \<open>n\<close> cents are that amount
  exactly when \<open>n * 10 ^ length b = 100 * (a * 10 ^ length b + b)\<close>.
\<close>

definition cents_exact :: "int \<Rightarrow> string \<Rightarrow> string \<Rightarrow> bool" where
  "cents_exact n a b =
     (n * 10 ^ length b = 100 * (digits_value a * 10 ^ length b + digits_value b))"


text \<open>
  What the specification says \<^verbatim>\<open>calculate\<close> returns for a table whose data rows parse: the
  header with its label, every data row with its total, the row of the grand total and the
  row of the ball pen count.
\<close>

definition add_total :: "row \<Rightarrow> row" where
  "add_total r = r @ [intToFloatString (row_total r)]"

definition grand_total :: "table \<Rightarrow> go_int" where
  "grand_total rows = sum_list (map row_total (tl rows))"

definition ball_pens :: "table \<Rightarrow> go_int" where
  "ball_pens rows = sum_list (map row_qty (filter is_ball_pen (tl rows)))"

definition report :: "table \<Rightarrow> table" where
  "report rows =
     (case rows of [] \<Rightarrow> [] | header # data \<Rightarrow> (header @ [''Total'']) # map add_total data) @
     [['''', '''', '''', ''Sum'', '''', intToFloatString (grand_total rows)],
      ['''', '''', '''', ''Ball Pens'', Sprint (ball_pens rows), '''']]"

section \<open>Example tables\<close>

text \<open>The two orders of the scenario of the specification, under a header row.\<close>

definition scenario :: table where
  "scenario =
     [[''Date'', ''OrderID'', ''ItemName'', ''UnitPrice'', ''Quantity''],
      [''2017-11-17'', ''1'', ''Ball Pen'', ''1.99'', ''50''],
      [''2017-11-17'', ''2'', ''Notebook'', ''12.99'', ''10'']]"

definition scenario_report :: table where
  "scenario_report =
     [[''Date'', ''OrderID'', ''ItemName'', ''UnitPrice'', ''Quantity'', ''Total''],
      [''2017-11-17'', ''1'', ''Ball Pen'', ''1.99'', ''50'', ''99.50''],
      [''2017-11-17'', ''2'', ''Notebook'', ''12.99'', ''10'', ''129.90''],
      ['''', '''', '''', ''Sum'', '''', ''229.40''],
      ['''', '''', '''', ''Ball Pens'', ''50'', '''']]"

text \<open>Orders so large that the arithmetic of \<^verbatim>\<open>int\<close> wraps around.\<close>

definition large_order :: table where
  "large_order =
     [[''Date'', ''OrderID'', ''ItemName'', ''UnitPrice'', ''Quantity''],
      [''2017-11-17'', ''1'', ''Notebook'', ''46116860184273879.04'', ''2'']]"

definition large_order_report :: table where
  "large_order_report =
     [[''Date'', ''OrderID'', ''ItemName'', ''UnitPrice'', ''Quantity'', ''Total''],
      [''2017-11-17'', ''1'', ''Notebook'', ''46116860184273879.04'', ''2'', ''-92233720368547758.-8''],
      ['''', '''', '''', ''Sum'', '''', ''-92233720368547758.-8''],
      ['''', '''', '''', ''Ball Pens'', ''0'', '''']]"

definition large_totals :: table where
  "large_totals =
     [[''Date'', ''OrderID'', ''ItemName'', ''UnitPrice'', ''Quantity''],
      [''2017-11-17'', ''1'', ''Notebook'', ''46116860184273879.04'', ''1''],
      [''2017-11-17'', ''2'', ''Binder'', ''46116860184273879.04'', ''1'']]"

definition large_totals_report :: table where
  "large_totals_report =
     [[''Date'', ''OrderID'', ''ItemName'', ''UnitPrice'', ''Quantity'', ''Total''],
      [''2017-11-17'', ''1'', ''Notebook'', ''46116860184273879.04'', ''1'', ''46116860184273879.4''],
      [''2017-11-17'', ''2'', ''Binder'', ''46116860184273879.04'', ''1'', ''46116860184273879.4''],
      ['''', '''', '''', ''Sum'', '''', ''-92233720368547758.-8''],
      ['''', '''', '''', ''Ball Pens'', ''0'', '''']]"

definition large_counts :: table where
  "large_counts =
     [[''Date'', ''OrderID'', ''ItemName'', ''UnitPrice'', ''Quantity''],
      [''2017-11-17'', ''1'', ''Ball Pen'', ''0.00'', ''4611686018427387904''],
      [''2017-11-17'', ''2'', ''Ball Pen'', ''0.00'', ''4611686018427387904'']]"

definition large_counts_report :: table where
  "large_counts_report =
     [[''Date'', ''OrderID'', ''ItemName'', ''UnitPrice'', ''Quantity'', ''Total''],
      [''2017-11-17'', ''1'', ''Ball Pen'', ''0.00'', ''4611686018427387904'', ''0.0''],
      [''2017-11-17'', ''2'', ''Ball Pen'', ''0.00'', ''4611686018427387904'', ''0.0''],
      ['''', '''', '''', ''Sum'', '''', ''0.0''],
      ['''', '''', '''', ''Ball Pens'', ''-9223372036854775808'', '''']]"

text \<open>Item names that differ from \<^verbatim>\<open>Ball Pen\<close> in case or by a space.\<close>

definition mixed_names :: table where
  "mixed_names =
     [[''Date'', ''OrderID'', ''ItemName'', ''UnitPrice'', ''Quantity''],
      [''2017-11-17'', ''1'', ''Ball Pen'', ''1.99'', ''50''],
      [''2017-11-17'', ''2'', ''ball pen'', ''1.99'', ''7''],
      [''2017-11-17'', ''3'', ''Ball Pen '', ''1.99'', ''9''],
      [''2017-11-19'', ''6'', ''Ball Pen'', ''1.99'', ''30'']]"

definition mixed_names_report :: table where
  "mixed_names_report =
     [[''Date'', ''OrderID'', ''ItemName'', ''UnitPrice'', ''Quantity'', ''Total''],
      [''2017-11-17'', ''1'', ''Ball Pen'', ''1.99'', ''50'', ''99.50''],
      [''2017-11-17'', ''2'', ''ball pen'', ''1.99'', ''7'', ''13.93''],
      [''2017-11-17'', ''3'', ''Ball Pen '', ''1.99'', ''9'', ''17.91''],
      [''2017-11-19'', ''6'', ''Ball Pen'', ''1.99'', ''30'', ''59.70''],
      ['''', '''', '''', ''Sum'', '''', ''191.4''],
      ['''', '''', '''', ''Ball Pens'', ''80'', '''']]"

text \<open>A quantity that is no number, and a price of zero with one digit behind the period.\<close>

definition bad_quantity :: table where
  "bad_quantity =
     [[''Date'', ''OrderID'', ''ItemName'', ''UnitPrice'', ''Quantity''],
      [''2017-11-17'', ''1'', ''Ball Pen'', ''1.99'', ''50''],
      [''2017-11-17'', ''2'', ''Notebook'', ''12.99'', ''ten'']]"

definition zero_price :: table where
  "zero_price =
     [[''Date'', ''OrderID'', ''ItemName'', ''UnitPrice'', ''Quantity''],
      [''2017-11-18'', ''4'', ''Pencil'', ''0.0'', ''100'']]"

definition zero_price_report :: table where
  "zero_price_report =
     [[''Date'', ''OrderID'', ''ItemName'', ''UnitPrice'', ''Quantity'', ''Total''],
      [''2017-11-18'', ''4'', ''Pencil'', ''0.0'', ''100'', ''0.0''],
      ['''', '''', '''', ''Sum'', '''', ''0.0''],
      ['''', '''', '''', ''Ball Pens'', ''0'', '''']]"

text \<open>A table of four columns: its data row has no Quantity cell.\<close>

definition short_rows :: table where
  "short_rows =
     [[''Date'', ''OrderID'', ''ItemName'', ''UnitPrice''],
      [''2017-11-17'', ''1'', ''Ball Pen'', ''1.99'']]"

section \<open>The loop of \<^verbatim>\<open>calculate\<close> is the loop over the rows\<close>

lemma for_body_data_row:
  "0 < i \<Longrightarrow>
   for_body i (rows, acc) =
     (case loop_body (rows ! i) acc of
        Inl e \<Rightarrow> Inl e
      | Inr (r', acc') \<Rightarrow> Inr (rows[i := r'], acc'))"
  by (cases acc) (simp add: for_body_def loop_body_def Let_def split: sum.splits)

lemma for_range_data_rows:
  assumes "0 < i" "i \<le> length rows"
  shows "for_range (length rows) i (rows, acc) =
           (case loop (drop i rows) acc of
              Inl e \<Rightarrow> Inl e
            | Inr (rest', acc') \<Rightarrow> Inr (take i rows @ rest', acc'))"
  using assms
proof (induction "length rows - i" arbitrary: i rows acc)
  case 0
  then have "i = length rows" by simp
  then show ?case
    by (simp add: for_range.simps [of "length rows" "length rows"])
next
  case (Suc k)
  then have i: "i < length rows" by simp
  then have d: "drop i rows = rows ! i # drop (Suc i) rows"
    by (simp add: Cons_nth_drop_Suc)
  show ?case
  proof (cases "loop_body (rows ! i) acc")
    case (Inl e)
    with i Suc.prems(1) d show ?thesis
      by (simp add: for_range.simps [of "length rows" i] for_body_data_row)
  next
    case (Inr x)
    obtain r' acc' where x: "x = (r', acc')" by (cases x)
    have "for_range (length rows) i (rows, acc) =
        for_range (length (rows[i := r'])) (Suc i) (rows[i := r'], acc')"
      using i Suc.prems(1) Inr x
      by (simp add: for_range.simps [of "length rows" i] for_body_data_row)
    also have "\<dots> =
        (case loop (drop (Suc i) (rows[i := r'])) acc' of
           Inl e \<Rightarrow> Inl e
         | Inr (rest', acc'') \<Rightarrow> Inr (take (Suc i) (rows[i := r']) @ rest', acc''))"
      using Suc.hyps(2) i by (intro Suc.hyps(1)) simp_all
    also have "\<dots> =
        (case loop (drop i rows) acc of
           Inl e \<Rightarrow> Inl e
         | Inr (rest', acc'') \<Rightarrow> Inr (take i rows @ rest', acc''))"
      using i Inr x d
      by (simp add: take_Suc_conv_app_nth upd_conv_take_nth_drop split: sum.splits)
    finally show ?thesis .
  qed
qed

lemma calculate_rows:
  "calculate rows =
     (case (case rows of
              [] \<Rightarrow> Inr ([], 0, 0)
            | header # data \<Rightarrow>
                (case loop data (0, 0) of
                   Inl e \<Rightarrow> Inl e
                 | Inr (data', acc) \<Rightarrow> Inr ((header @ [''Total'']) # data', acc))) of
        Inl e \<Rightarrow> Inl e
      | Inr (rows', sm, nb) \<Rightarrow>
          Inr (rows' @ [['''', '''', '''', ''Sum'', '''', intToFloatString sm],
                        ['''', '''', '''', ''Ball Pens'', Sprint nb, '''']]))"
proof (cases rows)
  case Nil
  then show ?thesis
    by (simp add: calculate_def for_range.simps [of 0 0])
next
  case (Cons header data)
  have "for_range (length rows) 0 (rows, 0, 0) =
      for_range (length ((header @ [''Total'']) # data)) (Suc 0) ((header @ [''Total'']) # data, 0, 0)"
    by (simp add: Cons for_range.simps [of "Suc (length data)" 0] for_body_def)
  also have "\<dots> =
      (case loop data (0, 0) of
         Inl e \<Rightarrow> Inl e
       | Inr (data', acc) \<Rightarrow> Inr ((header @ [''Total'']) # data', acc))"
    by (subst for_range_data_rows) (simp_all split: sum.splits)
  finally show ?thesis
    by (simp add: calculate_def Cons)
qed

section \<open>The loop, row by row\<close>

lemma loop_body_parses:
  "row_parses r \<Longrightarrow>
   loop_body r (s, n) =
     Inr (add_total r, s + row_total r, if is_ball_pen r then n + row_qty r else n)"
  by (auto simp: loop_body_def row_parses_def parses_def index_def row_total_def row_price_def
      row_qty_def is_ball_pen_def add_total_def Let_def split: sum.splits)

lemma loop_body_Inr: "loop_body r acc = Inr x \<Longrightarrow> row_parses r"
  by (auto simp: loop_body_def row_parses_def parses_def index_def Let_def
      split: sum.splits prod.splits if_splits)

lemma loop_parses:
  "\<forall>r\<in>set rs. row_parses r \<Longrightarrow>
   loop rs (s, n) =
     Inr (map add_total rs, s + sum_list (map row_total rs),
          n + sum_list (map row_qty (filter is_ball_pen rs)))"
  by (induction rs arbitrary: s n) (auto simp: loop_body_parses add.assoc)

lemma loop_Inr: "loop rs acc = Inr x \<Longrightarrow> \<forall>r\<in>set rs. row_parses r"
proof (induction rs arbitrary: acc x)
  case Nil
  then show ?case by simp
next
  case (Cons r rs)
  then show ?case
    by (auto split: sum.splits prod.splits dest: loop_body_Inr)
qed

lemma calculate_Inr_iff:
  "calculate rows = Inr out \<longleftrightarrow> (\<forall>r\<in>set (tl rows). row_parses r) \<and> out = report rows"
proof (cases rows)
  case Nil
  then show ?thesis
    by (auto simp: calculate_rows report_def grand_total_def ball_pens_def)
next
  case (Cons h d)
  show ?thesis
  proof (cases "\<forall>r\<in>set d. row_parses r")
    case True
    then show ?thesis
      using Cons loop_parses [OF True, of 0 0]
      by (auto simp: calculate_rows report_def grand_total_def ball_pens_def)
  next
    case False
    have "\<And>x. loop d (0, 0) \<noteq> Inr x"
      using False loop_Inr by blast
    then show ?thesis
      using Cons False
      by (auto simp: calculate_rows split: sum.splits prod.splits)
  qed
qed

lemma length_report: "length (report rows) = length rows + 2"
  by (cases rows) (simp_all add: report_def)

lemma report_header: "rows \<noteq> [] \<Longrightarrow> report rows ! 0 = hd rows @ [''Total'']"
  by (cases rows) (simp_all add: report_def)

lemma report_data_row:
  "0 < i \<Longrightarrow> i < length rows \<Longrightarrow> report rows ! i = add_total (rows ! i)"
  by (cases rows; cases i) (simp_all add: report_def nth_append)

lemma report_summary:
  "drop (length rows) (report rows) =
     [['''', '''', '''', ''Sum'', '''', intToFloatString (grand_total rows)],
      ['''', '''', '''', ''Ball Pens'', Sprint (ball_pens rows), '''']]"
  by (cases rows) (simp_all add: report_def)

lemma data_row_parses:
  "\<forall>r\<in>set (tl rows). row_parses r \<Longrightarrow> 0 < i \<Longrightarrow> i < length rows \<Longrightarrow> row_parses (rows ! i)"
  by (cases rows; cases i) simp_all

lemma row_parses_values:
  "row_parses r \<Longrightarrow>
   Atoi (Replace_dot (r ! 3)) = Inr (row_price r) \<and> Atoi (r ! 4) = Inr (row_qty r)"
  by (auto simp: row_parses_def parses_def row_price_def row_qty_def split: sum.splits)

lemma report_sum_row:
  "report rows ! length rows =
     ['''', '''', '''', ''Sum'', '''', intToFloatString (grand_total rows)]"
proof -
  have "report rows ! (length rows + 0) = drop (length rows) (report rows) ! 0"
    by (simp add: length_report)
  then show ?thesis
    by (simp add: report_summary)
qed

lemma report_count_row:
  "report rows ! Suc (length rows) =
     ['''', '''', '''', ''Ball Pens'', Sprint (ball_pens rows), '''']"
proof -
  have "report rows ! (length rows + 1) = drop (length rows) (report rows) ! 1"
    by (simp add: length_report)
  then show ?thesis
    by (simp add: report_summary)
qed


section \<open>The two appended rows\<close>

lemma calculate_summary_rows:
  assumes "calculate rows = Inr out"
  shows "length out = length rows + 2 \<and>
         drop (length rows) out =
           [['''', '''', '''', ''Sum'', '''', intToFloatString (grand_total rows)],
            ['''', '''', '''', ''Ball Pens'', Sprint (ball_pens rows), '''']]"
  using assms by (simp add: calculate_Inr_iff length_report report_summary)

section \<open>The first row that stops the loop\<close>

lemma loop_body_price_fails:
  "price_cell_fails r \<Longrightarrow> \<exists>err. \<forall>acc. loop_body r acc = Inl (CannotRetrievePrice (r ! 2) err)"
  by (auto simp: loop_body_def price_cell_fails_def parses_def index_def
      split: sum.splits prod.splits)

lemma loop_body_qty_fails:
  "qty_cell_fails r \<Longrightarrow> \<exists>err. \<forall>acc. loop_body r acc = Inl (CannotRetrieveQuantity (r ! 2) err)"
  by (auto simp: loop_body_def qty_cell_fails_def parses_def index_def
      split: sum.splits prod.splits)

lemma loop_body_short_row:
  "\<not> row_parses r \<Longrightarrow> \<not> price_cell_fails r \<Longrightarrow> \<not> qty_cell_fails r \<Longrightarrow>
   \<exists>i. loop_body r acc = Inl (IndexOutOfRange i (length r)) \<and> length r \<le> i \<and> i \<le> 4"
  by (auto simp: loop_body_def row_parses_def price_cell_fails_def qty_cell_fails_def parses_def
      index_def split: sum.splits prod.splits)

lemma loop_first_failure:
  assumes "\<forall>x\<in>set pre. row_parses x" "\<And>acc. loop_body r acc = Inl e"
  shows "loop (pre @ r # post) acc = Inl e"
  using assms(1)
proof (induction pre arbitrary: acc)
  case Nil
  then show ?case by (simp add: assms(2))
next
  case (Cons x pre)
  obtain s n where acc: "acc = (s, n)" by (cases acc)
  from Cons show ?case
    by (simp add: acc loop_body_parses)
qed

lemma calculate_first_failure:
  assumes "\<forall>x\<in>set pre. row_parses x" "\<And>acc. loop_body r acc = Inl e"
  shows "calculate (header # pre @ r # post) = Inl e"
  by (simp add: calculate_rows loop_first_failure [OF assms])

lemma sublist_message_price: "sublist item (message quote (CannotRetrievePrice item err))"
  unfolding message.simps by (rule sublist_appendI)

lemma sublist_message_quantity: "sublist item (message quote (CannotRetrieveQuantity item err))"
  unfolding message.simps by (rule sublist_appendI)

section \<open>Machine integers and decimal digits\<close>

lemma sint_word_of_int_small:
  "- (2 ^ 63) \<le> k \<Longrightarrow> k < 2 ^ 63 \<Longrightarrow> sint (word_of_int k :: go_int) = k"
  by (simp add: sint_sbintrunc' signed_take_bit_int_eq_self)

lemma sint_go_div_100:
  assumes "0 \<le> sint n"
  shows "sint (go_div n 100) = sint n div 100"
proof -
  have b: "sint n < 2 ^ 63"
    using sint_lt [of n] by simp
  have "sint n sdiv 100 = sint n div 100"
    using assms by (simp add: signed_divide_int_def sgn_if)
  moreover have "0 \<le> sint n div 100" "sint n div 100 < 2 ^ 63"
    using assms b by simp_all
  ultimately show ?thesis
    by (simp add: go_div_def sint_word_of_int_small)
qed

lemma sint_frac_100:
  assumes "0 \<le> sint n"
  shows "sint (n - go_div n 100 * 100) = sint n mod 100"
proof -
  have "n - go_div n 100 * 100 = word_of_int (sint n - sint (go_div n 100) * 100)"
    by simp
  also have "sint n - sint (go_div n 100) * 100 = sint n mod 100"
    using assms by (simp add: sint_go_div_100 minus_div_mult_eq_mod)
  finally have "n - go_div n 100 * 100 = word_of_int (sint n mod 100)" .
  moreover have "0 \<le> sint n mod 100" "sint n mod 100 < 2 ^ 63"
    by simp_all
  ultimately show ?thesis
    by (simp add: sint_word_of_int_small)
qed

lemma intToFloatString_nonneg:
  assumes "0 \<le> sint n"
  shows "intToFloatString n = decimal (sint n div 100) @ ''.'' @ decimal (sint n mod 100)"
proof -
  have "0 \<le> sint n div 100" "0 \<le> sint n mod 100"
    using assms by simp_all
  then show ?thesis
    using assms by (simp add: intToFloatString_def Let_def Sprint_def sint_go_div_100 sint_frac_100)
qed

lemma digit_char_digit:
  assumes "0 \<le> d" "d < 10"
  shows "digit_val (digit_char d) = d \<and> is_digit (digit_char d)"
proof -
  have all: "list_all (\<lambda>d. digit_val (digit_char d) = d \<and> is_digit (digit_char d))
               [0, 1, 2, 3, 4, 5, 6, 7, 8, 9]"
    by code_simp
  from assms have "d \<in> set [0, 1, 2, 3, 4, 5, 6, 7, 8, 9]"
    by simp arith
  with all show ?thesis
    unfolding list_all_iff by blast
qed

lemma digits_value_snoc: "digits_value (s @ [c]) = digits_value s * 10 + digit_val c"
  by (simp add: digits_value_def)

lemma decimal_digits:
  "0 \<le> n \<Longrightarrow> all_digits (decimal n) \<and> digits_value (decimal n) = n"
proof (induction n rule: decimal.induct)
  case (1 n)
  show ?case
  proof (cases "n < 10")
    case True
    with 1(2) show ?thesis
      by (simp add: decimal.simps [of n] digit_char_digit all_digits_def digits_value_def)
  next
    case False
    with 1 have ih: "all_digits (decimal (n div 10))" "digits_value (decimal (n div 10)) = n div 10"
      by simp_all
    have d: "digit_val (digit_char (n mod 10)) = n mod 10" "is_digit (digit_char (n mod 10))"
      using digit_char_digit [of "n mod 10"] by simp_all
    from False ih d show ?thesis
      by (simp add: decimal.simps [of n] digits_value_snoc all_digits_def)
  qed
qed

lemma length_decimal_small: "n < 10 \<Longrightarrow> length (decimal n) = 1"
  by (simp add: decimal.simps [of n])

lemma sum_list_word_of_int: "(sum_list ws :: go_int) = word_of_int (\<Sum>w\<leftarrow>ws. sint w)"
  by (induction ws) simp_all

lemma sint_sum_list_exact:
  "- (2 ^ 63) \<le> (\<Sum>x\<leftarrow>xs. sint (f x)) \<Longrightarrow> (\<Sum>x\<leftarrow>xs. sint (f x)) < 2 ^ 63 \<Longrightarrow>
   sint (sum_list (map f xs) :: go_int) = (\<Sum>x\<leftarrow>xs. sint (f x))"
  by (subst sum_list_word_of_int) (simp add: sint_word_of_int_small comp_def)

lemma sint_mult_exact:
  "- (2 ^ 63) \<le> sint a * sint b \<Longrightarrow> sint a * sint b < 2 ^ 63 \<Longrightarrow>
   sint (a * b :: go_int) = sint a * sint b"
  by (simp add: sint_word_mult signed_take_bit_int_eq_self)

section \<open>Reading a price\<close>

lemma is_digit_facts:
  "is_digit c \<Longrightarrow> 0 \<le> digit_val c \<and> digit_val c \<le> 9 \<and> c \<noteq> CHR ''.'' \<and> c \<noteq> CHR ''+'' \<and> c \<noteq> CHR ''-''"
  by (auto simp: is_digit_def digit_val_def)

lemma parse_digits_all_digits:
  "all_digits s \<Longrightarrow> parse_digits n s = Inr v \<Longrightarrow> v = foldl (\<lambda>n c. n * 10 + digit_val c) n s"
  by (induction s arbitrary: n) (auto simp: all_digits_def split: if_splits)

lemma foldl_digits_nonneg:
  "all_digits s \<Longrightarrow> 0 \<le> n \<Longrightarrow> 0 \<le> foldl (\<lambda>n c. n * 10 + digit_val c) n s"
proof (induction s arbitrary: n)
  case Nil
  then show ?case by simp
next
  case (Cons c s)
  from Cons.prems have "is_digit c" "all_digits s"
    by (simp_all add: all_digits_def)
  moreover from \<open>is_digit c\<close> Cons.prems(2) have "0 \<le> n * 10 + digit_val c"
    using is_digit_facts [of c] by simp
  ultimately show ?case
    using Cons.IH by simp
qed

lemma Atoi_all_digits:
  assumes "all_digits s" "Atoi s = Inr p"
  shows "sint p = digits_value s"
proof (cases s)
  case Nil
  with assms(2) show ?thesis by (simp add: Atoi_def)
next
  case (Cons c cs)
  with assms(1) have c: "c \<noteq> CHR ''+''" "c \<noteq> CHR ''-''"
    using is_digit_facts [of c] by (simp_all add: all_digits_def)
  from assms(2) Cons c obtain un where
    un: "parse_digits 0 s = Inr un" "un < 2 ^ 63" "p = word_of_int un"
    by (auto simp: Atoi_def Let_def split: sum.splits if_splits)
  from parse_digits_all_digits [OF assms(1) un(1)] have v: "un = digits_value s"
    by (simp add: digits_value_def)
  have "0 \<le> un"
    unfolding v digits_value_def using foldl_digits_nonneg [OF assms(1), of 0] by simp
  with un(2,3) show ?thesis
    by (simp add: v [symmetric] sint_word_of_int_small)
qed

lemma Replace_dot_digits:
  "all_digits a \<Longrightarrow> all_digits b \<Longrightarrow> Replace_dot (a @ ''.'' @ b) = a @ b"
proof -
  assume "all_digits a" "all_digits b"
  then have "filter (\<lambda>c. c \<noteq> CHR ''.'') a = a" "filter (\<lambda>c. c \<noteq> CHR ''.'') b = b"
    using is_digit_facts by (auto simp: all_digits_def list_all_iff intro!: filter_True)
  then show ?thesis
    by (simp add: Replace_dot_def)
qed

lemma digits_value_append:
  "digits_value (a @ b) = digits_value a * 10 ^ length b + digits_value b"
proof (induction b rule: rev_induct)
  case Nil
  then show ?case by (simp add: digits_value_def)
next
  case (snoc c b)
  have "digits_value (a @ b @ [c]) = digits_value (a @ b) * 10 + digit_val c"
    using digits_value_snoc [of "a @ b" c] by simp
  then show ?case
    by (simp add: snoc digits_value_snoc algebra_simps)
qed

lemma cents_exact_iff:
  assumes "p = digits_value (a @ b)"
  shows "cents_exact p a b \<longleftrightarrow> length b = 2 \<or> p = 0"
proof -
  have "cents_exact p a b \<longleftrightarrow> p * 10 ^ length b = p * 100"
    by (simp add: cents_exact_def assms digits_value_append mult.commute)
  also have "\<dots> \<longleftrightarrow> p = 0 \<or> (10::int) ^ length b = 10 ^ 2"
    by auto
  also have "(10::int) ^ length b = 10 ^ 2 \<longleftrightarrow> length b = 2"
    by (rule power_inject_exp) simp
  finally show ?thesis by blast
qed

section \<open>The failures \<^verbatim>\<open>writeOrders\<close> reports\<close>

lemma writeOrders_create_fails:
  "create_err env = Some e \<Longrightarrow> writeOrders env name rows = (Some (CannotOpen name e), None)"
  by (simp add: writeOrders_def)

lemma writeOrders_close_fails:
  "create_err env = None \<Longrightarrow> close_err env = Some e \<Longrightarrow>
   fst (writeOrders env name rows) = Some (CannotClose name e)"
  by (simp add: writeOrders_def Let_def)

lemma writeOrders_returns:
  "create_err env = None \<Longrightarrow> close_err env = None \<Longrightarrow> fst (writeOrders env name rows) = None"
  by (simp add: writeOrders_def Let_def)

section \<open>The claims\<close>

text \<open>
  C1, as the code has it. For every data row of a table on which \<^verbatim>\<open>calculate\<close> returns, the
  cell appended to the row is \<^verbatim>\<open>intToFloatString\<close> of the product of two integers: the cent
  value that \<^verbatim>\<open>strconv.Atoi\<close> reads from the UnitPrice cell without its periods, and the
  Quantity that it reads from the Quantity cell. The product is that of Go's \<^verbatim>\<open>int\<close>: the
  exact product of the two values when it lies between \<open>- 2 ^ 63\<close> and \<open>2 ^ 63 - 1\<close>, and the
  exact product reduced modulo \<open>2 ^ 64\<close> into that range otherwise. Only integer operations
  occur between the cells read and the cell written.
\<close>

theorem row_total_cell:
  assumes "calculate rows = Inr out" "0 < i" "i < length rows"
  shows "\<exists>price qty.
           Atoi (Replace_dot (rows ! i ! 3)) = Inr price \<and>
           Atoi (rows ! i ! 4) = Inr qty \<and>
           out ! i = rows ! i @ [intToFloatString (price * qty)] \<and>
           sint (price * qty) = signed_take_bit 63 (sint price * sint qty) \<and>
           (- (2 ^ 63) \<le> sint price * sint qty \<and> sint price * sint qty < 2 ^ 63 \<longrightarrow>
              sint (price * qty) = sint price * sint qty)"
proof -
  from assms(1) have ok: "\<forall>r\<in>set (tl rows). row_parses r" and out: "out = report rows"
    by (simp_all add: calculate_Inr_iff)
  from ok assms(2,3) have p: "row_parses (rows ! i)"
    by (rule data_row_parses)
  have "out ! i = rows ! i @ [intToFloatString (row_price (rows ! i) * row_qty (rows ! i))]"
    using assms(2,3) by (simp add: out report_data_row add_total_def row_total_def)
  moreover have "sint (row_price (rows ! i) * row_qty (rows ! i)) =
      signed_take_bit 63 (sint (row_price (rows ! i)) * sint (row_qty (rows ! i)))"
    by (simp add: sint_word_mult)
  ultimately show ?thesis
    using row_parses_values [OF p] sint_mult_exact by blast
qed

theorem row_total_cell_witness:
  "calculate scenario = Inr scenario_report \<and>
   Atoi (Replace_dot (scenario ! 2 ! 3)) = Inr 1299 \<and>
   Atoi (scenario ! 2 ! 4) = Inr 10 \<and>
   scenario_report ! 2 = scenario ! 2 @ [intToFloatString (1299 * 10)] \<and>
   sint (1299 * 10 :: go_int) = sint (1299 :: go_int) * sint (10 :: go_int)"
proof -
  have h: "calculate scenario = Inr scenario_report"
    by code_simp
  have i: "0 < (2::nat)" "2 < length scenario"
    by (simp_all add: scenario_def)
  have p: "Atoi (Replace_dot (scenario ! 2 ! 3)) = Inr 1299" "Atoi (scenario ! 2 ! 4) = Inr 10"
    by code_simp+
  from row_total_cell [OF h i] obtain price qty where
    v: "Atoi (Replace_dot (scenario ! 2 ! 3)) = Inr price" "Atoi (scenario ! 2 ! 4) = Inr qty"
       "scenario_report ! 2 = scenario ! 2 @ [intToFloatString (price * qty)]"
       "- (2 ^ 63) \<le> sint price * sint qty \<and> sint price * sint qty < 2 ^ 63 \<longrightarrow>
          sint (price * qty) = sint price * sint qty"
    by blast
  from v(1,2) p have e: "price = 1299" "qty = 10"
    by simp_all
  from v(4) have "sint (1299 * 10 :: go_int) = sint (1299 :: go_int) * sint (10 :: go_int)"
    unfolding e by simp
  with h p v(3) show ?thesis
    unfolding e by simp
qed

text \<open>
  A price of \<open>2 ^ 62\<close> cents and a quantity of 2 parse, and the total written is that of
  \<open>- 2 ^ 63\<close> cents where the exact product is \<open>2 ^ 63\<close>.
\<close>

theorem row_total_overflow_counterexample:
  "calculate large_order = Inr large_order_report \<and>
   Atoi (Replace_dot (large_order ! 1 ! 3)) = Inr 4611686018427387904 \<and>
   Atoi (large_order ! 1 ! 4) = Inr 2 \<and>
   large_order_report ! 1 ! 5 = intToFloatString (4611686018427387904 * 2) \<and>
   large_order_report ! 1 ! 5 = ''-92233720368547758.-8'' \<and>
   sint (4611686018427387904 * 2 :: go_int) = - 9223372036854775808 \<and>
   sint (4611686018427387904 :: go_int) * sint (2 :: go_int) = 9223372036854775808"
  by code_simp


text \<open>
  C2, at an input where the code departs from it. On the table of the scenario
  \<^verbatim>\<open>calculate\<close> appends two rows of six cells, with the grand total at index 5 of the first
  and the ball pen count at index 4 of the second, and empty strings elsewhere but for the
  labels. The labels \<^verbatim>\<open>Sum\<close> and \<^verbatim>\<open>Ball Pens\<close> stand at index 3, the UnitPrice column; the
  ItemName cell at index 2, where the table of the expected report in the closing comment of
  the source shows them, is empty. Every table on which \<^verbatim>\<open>calculate\<close> returns gets these two
  rows in this layout.
\<close>

theorem summary_label_column:
  "calculate scenario = Inr scenario_report \<and>
   drop (length scenario) scenario_report =
     [['''', '''', '''', ''Sum'', '''', ''229.40''],
      ['''', '''', '''', ''Ball Pens'', ''50'', '''']] \<and>
   scenario_report ! 3 ! 2 = '''' \<and> scenario_report ! 3 ! 3 = ''Sum'' \<and>
   scenario_report ! 4 ! 2 = '''' \<and> scenario_report ! 4 ! 3 = ''Ball Pens''"
  by code_simp


text \<open>
  C3, as the code has it. Whenever \<^verbatim>\<open>calculate\<close> returns, every data row has got the total
  of its own price and quantity, and the first appended row holds \<^verbatim>\<open>intToFloatString\<close> of the
  sum of these per-row totals in Go's \<^verbatim>\<open>int\<close>: the exact sum when that lies between
  \<open>- 2 ^ 63\<close> and \<open>2 ^ 63 - 1\<close>, the sum reduced modulo \<open>2 ^ 64\<close> otherwise. For the two rows
  1.99 \<open>\<times>\<close> 50 and 12.99 \<open>\<times>\<close> 10, under any header, the grand total cell is the string for
  22940 cents, \<^verbatim>\<open>229.40\<close>.
\<close>

theorem grand_total_cell:
  assumes "calculate rows = Inr out"
  shows "out ! length rows =
           ['''', '''', '''', ''Sum'', '''', intToFloatString (sum_list (map row_total (tl rows)))] \<and>
         (\<forall>i. 0 < i \<and> i < length rows \<longrightarrow>
            Atoi (Replace_dot (rows ! i ! 3)) = Inr (row_price (rows ! i)) \<and>
            Atoi (rows ! i ! 4) = Inr (row_qty (rows ! i)) \<and>
            out ! i = rows ! i @ [intToFloatString (row_total (rows ! i))]) \<and>
         (- (2 ^ 63) \<le> (\<Sum>r\<leftarrow>tl rows. sint (row_total r)) \<and>
          (\<Sum>r\<leftarrow>tl rows. sint (row_total r)) < 2 ^ 63 \<longrightarrow>
            sint (sum_list (map row_total (tl rows))) = (\<Sum>r\<leftarrow>tl rows. sint (row_total r))) \<and>
         (\<forall>header. calculate (header # tl scenario) = Inr ((header @ [''Total'']) # tl scenario_report)) \<and>
         scenario_report ! 3 ! 5 = intToFloatString 22940 \<and>
         intToFloatString 22940 = ''229.40''"
proof -
  from assms have ok: "\<forall>r\<in>set (tl rows). row_parses r" and out: "out = report rows"
    by (simp_all add: calculate_Inr_iff)
  have a: "out ! length rows =
      ['''', '''', '''', ''Sum'', '''', intToFloatString (sum_list (map row_total (tl rows)))]"
    by (simp add: out report_sum_row grand_total_def)
  have b: "Atoi (Replace_dot (rows ! i ! 3)) = Inr (row_price (rows ! i)) \<and>
           Atoi (rows ! i ! 4) = Inr (row_qty (rows ! i)) \<and>
           out ! i = rows ! i @ [intToFloatString (row_total (rows ! i))]"
    if "0 < i" "i < length rows" for i
    using that row_parses_values [OF data_row_parses [OF ok that]]
    by (simp add: out report_data_row add_total_def)
  have c: "calculate (header # tl scenario) = Inr ((header @ [''Total'']) # tl scenario_report)"
    for header
  proof -
    have "\<forall>r\<in>set (tl scenario). row_parses r"
      by code_simp
    then have "calculate (header # tl scenario) = Inr (report (header # tl scenario))"
      by (simp add: calculate_Inr_iff)
    moreover have "map add_total (tl scenario) = take 2 (tl scenario_report)"
      by code_simp
    moreover have "intToFloatString (sum_list (map row_total (tl scenario))) = ''229.40''"
      by code_simp
    moreover have "Sprint (sum_list (map row_qty (filter is_ball_pen (tl scenario)))) = ''50''"
      by code_simp
    ultimately show ?thesis
      by (simp add: report_def grand_total_def ball_pens_def scenario_report_def)
  qed
  have d: "scenario_report ! 3 ! 5 = intToFloatString 22940" "intToFloatString 22940 = ''229.40''"
    by code_simp+
  from a b c d show ?thesis
    using sint_sum_list_exact [where xs = "tl rows" and f = row_total] by blast
qed

theorem grand_total_cell_witness:
  "calculate scenario = Inr scenario_report \<and>
   scenario_report ! length scenario =
     ['''', '''', '''', ''Sum'', '''', intToFloatString (sum_list (map row_total (tl scenario)))] \<and>
   map row_total (tl scenario) = [9950, 12990] \<and>
   sint (sum_list (map row_total (tl scenario))) = 22940"
proof -
  have h: "calculate scenario = Inr scenario_report"
    by code_simp
  have v: "map row_total (tl scenario) = [9950, 12990]"
    by code_simp
  have s: "sint (sum_list (map row_total (tl scenario))) = 22940"
    unfolding v by simp
  from grand_total_cell [OF h] show ?thesis
    using h v s by simp
qed

text \<open>
  Two rows whose totals are \<open>2 ^ 62\<close> cents each: both parse, and the grand total written is
  that of \<open>- 2 ^ 63\<close> cents where the sum of the two totals is \<open>2 ^ 63\<close>.
\<close>

theorem grand_total_overflow_counterexample:
  "calculate large_totals = Inr large_totals_report \<and>
   map row_total (tl large_totals) = [4611686018427387904, 4611686018427387904] \<and>
   large_totals_report ! 1 ! 5 = intToFloatString 4611686018427387904 \<and>
   large_totals_report ! 2 ! 5 = intToFloatString 4611686018427387904 \<and>
   large_totals_report ! 3 ! 5 = intToFloatString (4611686018427387904 + 4611686018427387904) \<and>
   large_totals_report ! 3 ! 5 = ''-92233720368547758.-8'' \<and>
   sint (4611686018427387904 + 4611686018427387904 :: go_int) = - 9223372036854775808 \<and>
   sint (4611686018427387904 :: go_int) + sint (4611686018427387904 :: go_int) = 9223372036854775808"
  by code_simp

text \<open>
  C4, as the code has it. Whenever \<^verbatim>\<open>calculate\<close> returns, the second appended row holds, in
  decimal, the sum in Go's \<^verbatim>\<open>int\<close> of the Quantity values of exactly those data rows whose
  ItemName cell equals the string \<^verbatim>\<open>Ball Pen\<close>; no other row contributes. It is the exact sum
  when that lies between \<open>- 2 ^ 63\<close> and \<open>2 ^ 63 - 1\<close>, the sum reduced modulo \<open>2 ^ 64\<close>
  otherwise.
\<close>

theorem ball_pen_count_cell:
  assumes "calculate rows = Inr out"
  shows "out ! Suc (length rows) =
           ['''', '''', '''', ''Ball Pens'',
            Sprint (sum_list (map row_qty (filter (\<lambda>r. r ! 2 = ''Ball Pen'') (tl rows)))), ''''] \<and>
         (\<forall>i. 0 < i \<and> i < length rows \<longrightarrow> Atoi (rows ! i ! 4) = Inr (row_qty (rows ! i))) \<and>
         (- (2 ^ 63) \<le> (\<Sum>r\<leftarrow>filter (\<lambda>r. r ! 2 = ''Ball Pen'') (tl rows). sint (row_qty r)) \<and>
          (\<Sum>r\<leftarrow>filter (\<lambda>r. r ! 2 = ''Ball Pen'') (tl rows). sint (row_qty r)) < 2 ^ 63 \<longrightarrow>
            sint (sum_list (map row_qty (filter (\<lambda>r. r ! 2 = ''Ball Pen'') (tl rows)))) =
              (\<Sum>r\<leftarrow>filter (\<lambda>r. r ! 2 = ''Ball Pen'') (tl rows). sint (row_qty r)))"
proof -
  from assms have ok: "\<forall>r\<in>set (tl rows). row_parses r" and out: "out = report rows"
    by (simp_all add: calculate_Inr_iff)
  have f: "is_ball_pen = (\<lambda>r. r ! 2 = ''Ball Pen'')"
    by (rule ext) (simp add: is_ball_pen_def)
  have a: "out ! Suc (length rows) =
      ['''', '''', '''', ''Ball Pens'',
       Sprint (sum_list (map row_qty (filter (\<lambda>r. r ! 2 = ''Ball Pen'') (tl rows)))), '''']"
    by (simp add: out report_count_row ball_pens_def f)
  have b: "Atoi (rows ! i ! 4) = Inr (row_qty (rows ! i))" if "0 < i" "i < length rows" for i
    using row_parses_values [OF data_row_parses [OF ok that]] by simp
  from a b show ?thesis
    using sint_sum_list_exact [where xs = "filter (\<lambda>r. r ! 2 = ''Ball Pen'') (tl rows)" and f = row_qty] by blast
qed

text \<open>
  Of four rows named \<^verbatim>\<open>Ball Pen\<close>, \<^verbatim>\<open>ball pen\<close>, \<^verbatim>\<open>Ball Pen\<close> with a space behind it and
  \<^verbatim>\<open>Ball Pen\<close>, the first and the last are counted: 50 + 30.
\<close>

theorem ball_pen_count_cell_witness:
  "calculate mixed_names = Inr mixed_names_report \<and>
   mixed_names_report ! Suc (length mixed_names) = ['''', '''', '''', ''Ball Pens'', ''80'', ''''] \<and>
   map (\<lambda>r. r ! 2) (tl mixed_names) = [''Ball Pen'', ''ball pen'', ''Ball Pen '', ''Ball Pen''] \<and>
   map row_qty (tl mixed_names) = [50, 7, 9, 30] \<and>
   map row_qty (filter (\<lambda>r. r ! 2 = ''Ball Pen'') (tl mixed_names)) = [50, 30] \<and>
   Sprint (sum_list (map row_qty (filter (\<lambda>r. r ! 2 = ''Ball Pen'') (tl mixed_names)))) = ''80''"
proof -
  have h: "calculate mixed_names = Inr mixed_names_report"
    by code_simp
  have v: "map (\<lambda>r. r ! 2) (tl mixed_names) = [''Ball Pen'', ''ball pen'', ''Ball Pen '', ''Ball Pen'']"
      "map row_qty (tl mixed_names) = [50, 7, 9, 30]"
      "map row_qty (filter (\<lambda>r. r ! 2 = ''Ball Pen'') (tl mixed_names)) = [50, 30]"
    by code_simp+
  have s: "Sprint (sum_list (map row_qty (filter (\<lambda>r. r ! 2 = ''Ball Pen'') (tl mixed_names)))) = ''80''"
    by code_simp
  from ball_pen_count_cell [OF h]
  have "mixed_names_report ! Suc (length mixed_names) =
      ['''', '''', '''', ''Ball Pens'',
       Sprint (sum_list (map row_qty (filter (\<lambda>r. r ! 2 = ''Ball Pen'') (tl mixed_names)))), '''']"
    by blast
  then show ?thesis
    using h v s by simp
qed

text \<open>
  Two rows of ball pens with a quantity of \<open>2 ^ 62\<close> each: both parse, and the count written
  is \<open>- 2 ^ 63\<close> where the sum of the quantities is \<open>2 ^ 63\<close>.
\<close>

theorem ball_pen_count_overflow_counterexample:
  "calculate large_counts = Inr large_counts_report \<and>
   map (\<lambda>r. r ! 2) (tl large_counts) = [''Ball Pen'', ''Ball Pen''] \<and>
   map row_qty (tl large_counts) = [4611686018427387904, 4611686018427387904] \<and>
   large_counts_report ! 4 ! 4 = Sprint (4611686018427387904 + 4611686018427387904) \<and>
   large_counts_report ! 4 ! 4 = ''-9223372036854775808'' \<and>
   sint (4611686018427387904 + 4611686018427387904 :: go_int) = - 9223372036854775808 \<and>
   sint (4611686018427387904 :: go_int) + sint (4611686018427387904 :: go_int) = 9223372036854775808"
  by code_simp


text \<open>
  C5, as the code has it. On a table whose data rows have 5 cells at least, \<^verbatim>\<open>calculate\<close>
  returns exactly when, in every data row, \<^verbatim>\<open>strconv.Atoi\<close> accepts the UnitPrice cell
  without its periods and the Quantity cell. Going through the rows in order, the first cell
  it does not accept (the UnitPrice cell of a row, or its Quantity cell after a UnitPrice it
  accepted) stops the run in \<^verbatim>\<open>log.Fatalf\<close> with a message that contains the ItemName cell of
  that row, whatever \<^verbatim>\<open>strconv.Quote\<close> does; \<^verbatim>\<open>main\<close> then ends with that abort and has
  created no output file.
\<close>

theorem calculate_parse_abort:
  assumes "\<forall>r\<in>set (tl rows). 5 \<le> length r"
  shows "((\<exists>out. calculate rows = Inr out) \<longleftrightarrow>
            (\<forall>r\<in>set (tl rows). parses (Replace_dot (r ! 3)) \<and> parses (r ! 4))) \<and>
         (\<forall>header pre r post.
            rows = header # pre @ r # post \<and>
            (\<forall>x\<in>set pre. parses (Replace_dot (x ! 3)) \<and> parses (x ! 4)) \<and>
            \<not> (parses (Replace_dot (r ! 3)) \<and> parses (r ! 4)) \<longrightarrow>
            (\<exists>e. calculate rows = Inl e \<and>
                 (\<not> parses (Replace_dot (r ! 3)) \<longrightarrow> (\<exists>err. e = CannotRetrievePrice (r ! 2) err)) \<and>
                 (parses (Replace_dot (r ! 3)) \<longrightarrow> (\<exists>err. e = CannotRetrieveQuantity (r ! 2) err)) \<and>
                 is_parse_fatal e \<and>
                 (\<forall>quote. sublist (r ! 2) (message quote e)) \<and>
                 (\<forall>env. main env rows = (Some e, None))))"
proof -
  have rp: "row_parses r \<longleftrightarrow> parses (Replace_dot (r ! 3)) \<and> parses (r ! 4)"
    if "r \<in> set (tl rows)" for r
    using assms that by (auto simp: row_parses_def)
  have iff: "(\<exists>out. calculate rows = Inr out) \<longleftrightarrow>
      (\<forall>r\<in>set (tl rows). parses (Replace_dot (r ! 3)) \<and> parses (r ! 4))"
    using rp by (simp add: calculate_Inr_iff)
  have ab: "\<exists>e. calculate rows = Inl e \<and>
           (\<not> parses (Replace_dot (r ! 3)) \<longrightarrow> (\<exists>err. e = CannotRetrievePrice (r ! 2) err)) \<and>
           (parses (Replace_dot (r ! 3)) \<longrightarrow> (\<exists>err. e = CannotRetrieveQuantity (r ! 2) err)) \<and>
           is_parse_fatal e \<and>
           (\<forall>quote. sublist (r ! 2) (message quote e)) \<and>
           (\<forall>env. main env rows = (Some e, None))"
    if rows: "rows = header # pre @ r # post"
      and pre: "\<forall>x\<in>set pre. parses (Replace_dot (x ! 3)) \<and> parses (x ! 4)"
      and fails: "\<not> (parses (Replace_dot (r ! 3)) \<and> parses (r ! 4))"
    for header pre r post
  proof -
    have len: "4 < length r"
      using assms rows by simp
    have pre': "\<forall>x\<in>set pre. row_parses x"
      using pre rp rows by simp
    show ?thesis
    proof (cases "parses (Replace_dot (r ! 3))")
      case False
      with len have "price_cell_fails r"
        by (simp add: price_cell_fails_def)
      then obtain err where "\<And>acc. loop_body r acc = Inl (CannotRetrievePrice (r ! 2) err)"
        using loop_body_price_fails by blast
      then have "calculate rows = Inl (CannotRetrievePrice (r ! 2) err)"
        unfolding rows using pre' by (intro calculate_first_failure) simp_all
      with False show ?thesis
        by (simp add: main_def sublist_message_price del: message.simps)
    next
      case True
      with fails len have "qty_cell_fails r"
        by (simp add: qty_cell_fails_def)
      then obtain err where "\<And>acc. loop_body r acc = Inl (CannotRetrieveQuantity (r ! 2) err)"
        using loop_body_qty_fails by blast
      then have "calculate rows = Inl (CannotRetrieveQuantity (r ! 2) err)"
        unfolding rows using pre' by (intro calculate_first_failure) simp_all
      with True show ?thesis
        by (simp add: main_def sublist_message_quantity del: message.simps)
    qed
  qed
  from iff ab show ?thesis
    by blast
qed

text \<open>The second order has the quantity \<^verbatim>\<open>ten\<close>: the run stops naming \<^verbatim>\<open>Notebook\<close>.\<close>

theorem calculate_parse_abort_witness:
  "5 \<le> length (bad_quantity ! 1) \<and> 5 \<le> length (bad_quantity ! 2) \<and>
   parses (Replace_dot (bad_quantity ! 1 ! 3)) \<and> parses (bad_quantity ! 1 ! 4) \<and>
   parses (Replace_dot (bad_quantity ! 2 ! 3)) \<and> \<not> parses (bad_quantity ! 2 ! 4) \<and>
   calculate bad_quantity = Inl (CannotRetrieveQuantity ''Notebook'' (NumError ''Atoi'' ''ten'' ErrSyntax)) \<and>
   sublist ''Notebook''
     (message id (CannotRetrieveQuantity ''Notebook'' (NumError ''Atoi'' ''ten'' ErrSyntax))) \<and>
   main \<lparr>create_err = None, write_err = None, close_err = None\<rparr> bad_quantity =
     (Some (CannotRetrieveQuantity ''Notebook'' (NumError ''Atoi'' ''ten'' ErrSyntax)), None) \<and>
   \<not> (\<exists>out. calculate bad_quantity = Inr out)"
proof -
  have l: "5 \<le> length (bad_quantity ! 1)" "5 \<le> length (bad_quantity ! 2)"
    by (simp_all add: bad_quantity_def)
  have p: "parses (Replace_dot (bad_quantity ! 1 ! 3))" "parses (bad_quantity ! 1 ! 4)"
      "parses (Replace_dot (bad_quantity ! 2 ! 3))" "\<not> parses (bad_quantity ! 2 ! 4)"
    by code_simp+
  have c: "calculate bad_quantity =
      Inl (CannotRetrieveQuantity ''Notebook'' (NumError ''Atoi'' ''ten'' ErrSyntax))"
    by code_simp
  have t: "tl bad_quantity = [bad_quantity ! 1, bad_quantity ! 2]"
    by (simp add: bad_quantity_def)
  have h: "\<forall>r\<in>set (tl bad_quantity). 5 \<le> length r"
    unfolding t using l by simp
  have shape: "bad_quantity = hd bad_quantity # [bad_quantity ! 1] @ bad_quantity ! 2 # []"
    by (simp add: bad_quantity_def)
  have pre: "\<forall>x\<in>set [bad_quantity ! 1]. parses (Replace_dot (x ! 3)) \<and> parses (x ! 4)"
    using p by simp
  have f: "\<not> (parses (Replace_dot (bad_quantity ! 2 ! 3)) \<and> parses (bad_quantity ! 2 ! 4))"
    using p by simp
  from calculate_parse_abort [OF h] shape pre f
  obtain e where e: "calculate bad_quantity = Inl e"
      "\<forall>quote. sublist (bad_quantity ! 2 ! 2) (message quote e)"
      "\<forall>env. main env bad_quantity = (Some e, None)"
    by blast
  from e(1) c have v: "e = CannotRetrieveQuantity ''Notebook'' (NumError ''Atoi'' ''ten'' ErrSyntax)"
    by simp
  have n: "bad_quantity ! 2 ! 2 = ''Notebook''"
    by (simp add: bad_quantity_def)
  from e(2) have "sublist ''Notebook'' (message id e)"
    unfolding n by blast
  moreover from e(3) have "main \<lparr>create_err = None, write_err = None, close_err = None\<rparr> bad_quantity = (Some e, None)"
    by blast
  ultimately show ?thesis
    using l p c unfolding v by simp
qed

text \<open>
  A data row of four cells: its UnitPrice cell parses and it has no Quantity cell. The run
  stops in the panic of the index expression \<^verbatim>\<open>rows[i][4]\<close>, which is no call of
  \<^verbatim>\<open>log.Fatalf\<close> and whose text does not contain the item name.
\<close>

theorem short_row_counterexample:
  "length (short_rows ! 1) = 4 \<and>
   parses (Replace_dot (short_rows ! 1 ! 3)) \<and>
   calculate short_rows = Inl (IndexOutOfRange 4 4) \<and>
   \<not> is_parse_fatal (IndexOutOfRange 4 4) \<and>
   message id (IndexOutOfRange 4 4) = ''runtime error: index out of range [4] with length 4'' \<and>
   \<not> sublist (short_rows ! 1 ! 2) (message id (IndexOutOfRange 4 4)) \<and>
   main \<lparr>create_err = None, write_err = None, close_err = None\<rparr> short_rows =
     (Some (IndexOutOfRange 4 4), None)"
  by code_simp

text \<open>
  C6. For every non-negative cent value \<open>n\<close> of type \<^verbatim>\<open>int\<close>, \<^verbatim>\<open>intToFloatString\<close> gives the
  decimal digits of \<open>n div 100\<close>, a period, and the decimal digits of \<open>n mod 100\<close> without
  padding: a remainder below 10 is a single digit. 9900 cents give \<^verbatim>\<open>99.0\<close> and 10005 cents
  give \<^verbatim>\<open>100.5\<close>.
\<close>

theorem intToFloatString_digits:
  "(0 \<le> sint n \<longrightarrow>
      intToFloatString n = decimal (sint n div 100) @ ''.'' @ decimal (sint n mod 100) \<and>
      digits_value (decimal (sint n div 100)) = sint n div 100 \<and>
      digits_value (decimal (sint n mod 100)) = sint n mod 100 \<and>
      (sint n mod 100 < 10 \<longrightarrow> length (decimal (sint n mod 100)) = 1)) \<and>
   intToFloatString 9900 = ''99.0'' \<and>
   intToFloatString 10005 = ''100.5''"
proof -
  have "intToFloatString 9900 = ''99.0''" "intToFloatString 10005 = ''100.5''"
    by code_simp+
  moreover have "digits_value (decimal (sint n div 100)) = sint n div 100" if "0 \<le> sint n"
    using that by (simp add: decimal_digits)
  moreover have "digits_value (decimal (sint n mod 100)) = sint n mod 100"
    by (simp add: decimal_digits)
  ultimately show ?thesis
    by (simp add: intToFloatString_nonneg length_decimal_small)
qed

theorem intToFloatString_digits_witness:
  "0 \<le> sint (12990 :: go_int) \<and>
   intToFloatString 12990 = decimal 129 @ ''.'' @ decimal 90 \<and>
   intToFloatString 12990 = ''129.90''"
proof -
  have h: "0 \<le> sint (12990 :: go_int)"
    by simp
  have d: "sint (12990 :: go_int) div 100 = 129" "sint (12990 :: go_int) mod 100 = 90"
    by simp_all
  have e: "decimal 129 @ ''.'' @ decimal 90 = ''129.90''"
    by code_simp
  from intToFloatString_digits [of 12990] h
  have "intToFloatString 12990 = decimal (sint (12990 :: go_int) div 100) @ ''.'' @ decimal (sint (12990 :: go_int) mod 100)"
    by blast
  then show ?thesis
    using h e unfolding d by simp
qed

text \<open>
  C7. When every data row has exactly 5 cells and its UnitPrice and Quantity cells parse,
  \<^verbatim>\<open>calculate\<close> returns, every data row of the result has exactly 6 cells, the first 5 being
  the input row, and a header of 5 cells has become one of 6 by the label \<^verbatim>\<open>Total\<close>.
\<close>

theorem calculate_row_widths:
  assumes "\<forall>r\<in>set (tl rows). length r = 5 \<and> parses (Replace_dot (r ! 3)) \<and> parses (r ! 4)"
  shows "\<exists>out. calculate rows = Inr out \<and>
           (\<forall>i. 0 < i \<and> i < length rows \<longrightarrow> length (out ! i) = 6 \<and> butlast (out ! i) = rows ! i) \<and>
           (rows \<noteq> [] \<and> length (hd rows) = 5 \<longrightarrow>
              length (out ! 0) = 6 \<and> out ! 0 = hd rows @ [''Total''])"
proof -
  from assms have ok: "\<forall>r\<in>set (tl rows). row_parses r"
    by (simp add: row_parses_def)
  then have c: "calculate rows = Inr (report rows)"
    by (simp add: calculate_Inr_iff)
  have "length (report rows ! i) = 6 \<and> butlast (report rows ! i) = rows ! i"
    if "0 < i" "i < length rows" for i
  proof -
    from that have "rows ! i \<in> set (tl rows)"
      by (cases rows; cases i) simp_all
    with assms have "length (rows ! i) = 5" by blast
    with that show ?thesis
      by (simp add: report_data_row add_total_def)
  qed
  moreover have "length (report rows ! 0) = 6 \<and> report rows ! 0 = hd rows @ [''Total'']"
    if "rows \<noteq> []" "length (hd rows) = 5"
    using that by (simp add: report_header)
  ultimately show ?thesis
    using c by blast
qed

theorem calculate_row_widths_witness:
  "length (scenario ! 1) = 5 \<and> parses (Replace_dot (scenario ! 1 ! 3)) \<and> parses (scenario ! 1 ! 4) \<and>
   length (scenario ! 2) = 5 \<and> parses (Replace_dot (scenario ! 2 ! 3)) \<and> parses (scenario ! 2 ! 4) \<and>
   calculate scenario = Inr scenario_report \<and>
   length (scenario_report ! 0) = 6 \<and> length (scenario_report ! 1) = 6 \<and>
   length (scenario_report ! 2) = 6"
proof -
  have r1: "length (scenario ! 1) = 5 \<and> parses (Replace_dot (scenario ! 1 ! 3)) \<and> parses (scenario ! 1 ! 4)"
    by code_simp
  have r2: "length (scenario ! 2) = 5 \<and> parses (Replace_dot (scenario ! 2 ! 3)) \<and> parses (scenario ! 2 ! 4)"
    by code_simp
  have t: "tl scenario = [scenario ! 1, scenario ! 2]"
    by (simp add: scenario_def)
  have h: "\<forall>r\<in>set (tl scenario). length r = 5 \<and> parses (Replace_dot (r ! 3)) \<and> parses (r ! 4)"
    unfolding t using r1 r2 by simp
  have c: "calculate scenario = Inr scenario_report"
    by code_simp
  have n: "length scenario = 3" "scenario \<noteq> []" "length (hd scenario) = 5"
    by (simp_all add: scenario_def)
  from calculate_row_widths [OF h] obtain out where
    o: "calculate scenario = Inr out"
       "\<forall>i. 0 < i \<and> i < length scenario \<longrightarrow> length (out ! i) = 6 \<and> butlast (out ! i) = scenario ! i"
       "scenario \<noteq> [] \<and> length (hd scenario) = 5 \<longrightarrow> length (out ! 0) = 6 \<and> out ! 0 = hd scenario @ [''Total'']"
    by blast
  from o(1) c have e: "out = scenario_report" by simp
  from o(2) n have "length (out ! 1) = 6" "length (out ! 2) = 6" by simp_all
  moreover from o(3) n have "length (out ! 0) = 6" by simp
  ultimately show ?thesis
    using r1 r2 c e by simp
qed

text \<open>
  C8, as the code has it. For every data row of a table on which \<^verbatim>\<open>calculate\<close> returns, the
  cent value used as UnitPrice is what \<^verbatim>\<open>strconv.Atoi\<close> reads from the UnitPrice cell with
  every period deleted. For a price written as digits \<open>a\<close>, a period and digits \<open>b\<close> it is
  the number written \<open>ab\<close>; it is the right amount in cents when \<open>b\<close> has two digits, and
  with any other number of digits in \<open>b\<close> only when the price is zero. The price \<^verbatim>\<open>2.5\<close> is
  read as 25 cents, not 250.
\<close>

theorem unit_price_cents:
  assumes "calculate rows = Inr out" "0 < i" "i < length rows"
  shows "\<exists>price.
           Atoi (filter (\<lambda>c. c \<noteq> CHR ''.'') (rows ! i ! 3)) = Inr price \<and>
           out ! i = rows ! i @ [intToFloatString (price * row_qty (rows ! i))] \<and>
           (\<forall>a b. rows ! i ! 3 = a @ ''.'' @ b \<and> all_digits a \<and> all_digits b \<longrightarrow>
              sint price = digits_value (a @ b) \<and>
              sint price = digits_value a * 10 ^ length b + digits_value b \<and>
              (cents_exact (sint price) a b \<longleftrightarrow> length b = 2 \<or> sint price = 0)) \<and>
           Atoi (filter (\<lambda>c. c \<noteq> CHR ''.'') ''2.5'') = Inr 25 \<and>
           \<not> cents_exact 25 ''2'' ''5'' \<and> cents_exact 250 ''2'' ''5''"
proof -
  from assms(1) have ok: "\<forall>r\<in>set (tl rows). row_parses r" and out: "out = report rows"
    by (simp_all add: calculate_Inr_iff)
  from ok assms(2,3) have p: "row_parses (rows ! i)"
    by (rule data_row_parses)
  let ?price = "row_price (rows ! i)"
  have a: "Atoi (filter (\<lambda>c. c \<noteq> CHR ''.'') (rows ! i ! 3)) = Inr ?price"
    using row_parses_values [OF p] by (simp add: Replace_dot_def)
  have b: "out ! i = rows ! i @ [intToFloatString (?price * row_qty (rows ! i))]"
    using assms(2,3) by (simp add: out report_data_row add_total_def row_total_def)
  have c: "sint ?price = digits_value (a @ b) \<and>
           sint ?price = digits_value a * 10 ^ length b + digits_value b \<and>
           (cents_exact (sint ?price) a b \<longleftrightarrow> length b = 2 \<or> sint ?price = 0)"
    if cell: "rows ! i ! 3 = a @ ''.'' @ b" and da: "all_digits a" and db: "all_digits b" for a b
  proof -
    have "Atoi (a @ b) = Inr ?price"
      using row_parses_values [OF p] Replace_dot_digits [OF da db] by (simp add: cell)
    moreover have "all_digits (a @ b)"
      using da db by (simp add: all_digits_def)
    ultimately have v: "sint ?price = digits_value (a @ b)"
      using Atoi_all_digits by blast
    with cents_exact_iff [OF v] show ?thesis
      by (simp add: digits_value_append)
  qed
  have d: "Atoi (filter (\<lambda>c. c \<noteq> CHR ''.'') ''2.5'') = Inr 25"
    "\<not> cents_exact 25 ''2'' ''5''" "cents_exact 250 ''2'' ''5''"
    by code_simp+
  from a b c d show ?thesis
    by blast
qed

theorem unit_price_cents_witness:
  "calculate scenario = Inr scenario_report \<and>
   scenario ! 2 ! 3 = ''12'' @ ''.'' @ ''99'' \<and> all_digits ''12'' \<and> all_digits ''99'' \<and>
   Atoi (filter (\<lambda>c. c \<noteq> CHR ''.'') (scenario ! 2 ! 3)) = Inr 1299 \<and>
   digits_value ''12'' * 10 ^ length ''99'' + digits_value ''99'' = 1299 \<and>
   cents_exact 1299 ''12'' ''99''"
proof -
  have h: "calculate scenario = Inr scenario_report"
    by code_simp
  have i: "0 < (2::nat)" "2 < length scenario"
    by (simp_all add: scenario_def)
  have f: "scenario ! 2 ! 3 = ''12'' @ ''.'' @ ''99''" "all_digits ''12''" "all_digits ''99''"
    by code_simp+
  have p: "Atoi (filter (\<lambda>c. c \<noteq> CHR ''.'') (scenario ! 2 ! 3)) = Inr 1299"
    by code_simp
  from unit_price_cents [OF h i] obtain price where
    v: "Atoi (filter (\<lambda>c. c \<noteq> CHR ''.'') (scenario ! 2 ! 3)) = Inr price"
       "\<forall>a b. scenario ! 2 ! 3 = a @ ''.'' @ b \<and> all_digits a \<and> all_digits b \<longrightarrow>
              sint price = digits_value (a @ b) \<and>
              sint price = digits_value a * 10 ^ length b + digits_value b \<and>
              (cents_exact (sint price) a b \<longleftrightarrow> length b = 2 \<or> sint price = 0)"
    by blast
  from v(1) p have e: "price = 1299" by simp
  have s: "sint (1299 :: go_int) = 1299" by simp
  from v(2) f have "sint price = digits_value ''12'' * 10 ^ length ''99'' + digits_value ''99'' \<and>
      (cents_exact (sint price) ''12'' ''99'' \<longleftrightarrow> length ''99'' = 2 \<or> sint price = 0)"
    by blast
  then have "digits_value ''12'' * 10 ^ length ''99'' + digits_value ''99'' = 1299"
      "cents_exact 1299 ''12'' ''99''"
    unfolding e s by simp_all
  with h f p show ?thesis
    by simp
qed

text \<open>
  The price \<^verbatim>\<open>0.0\<close> has one digit behind the period and is read as 0 cents, which is its
  amount.
\<close>

theorem unit_price_zero_counterexample:
  "calculate zero_price = Inr zero_price_report \<and>
   zero_price ! 1 ! 3 = ''0'' @ ''.'' @ ''0'' \<and>
   Atoi (filter (\<lambda>c. c \<noteq> CHR ''.'') (zero_price ! 1 ! 3)) = Inr 0 \<and>
   cents_exact 0 ''0'' ''0'' \<and>
   length ''0'' = 1"
  by code_simp


text \<open>
  C9, at the input where the code departs from it. \<^verbatim>\<open>os.Create\<close> succeeds, \<^verbatim>\<open>WriteAll\<close>
  returns an error and \<^verbatim>\<open>Close\<close> succeeds: \<^verbatim>\<open>writeOrders\<close> returns normally, with no fatal
  message, and leaves a file whose contents are incomplete.
\<close>

theorem writeOrders_ignores_write_error:
  "writeOrders \<lparr>create_err = None, write_err = Some ''no space left on device'', close_err = None\<rparr>
     ''ordersReport.csv'' scenario_report = (None, Some Incomplete)"
  by (simp add: writeOrders_def)

text \<open>
  C10. \<^verbatim>\<open>calculate\<close> alters no cell of its input: whenever it returns, the result has two
  rows more than the input, and every input row is a prefix of the row at the same position
  of the result, so that rows keep their order and cells their places.
\<close>

theorem calculate_keeps_input:
  assumes "calculate rows = Inr out"
  shows "length out = length rows + 2 \<and> (\<forall>i<length rows. prefix (rows ! i) (out ! i))"
proof -
  from assms have out: "out = report rows"
    by (simp add: calculate_Inr_iff)
  have "prefix (rows ! i) (report rows ! i)" if "i < length rows" for i
  proof (cases "i = 0")
    case True
    with that show ?thesis
      by (simp add: report_header hd_conv_nth)
  next
    case False
    with that show ?thesis
      by (simp add: report_data_row add_total_def)
  qed
  then show ?thesis
    by (simp add: out length_report)
qed

theorem calculate_keeps_input_witness:
  "calculate scenario = Inr scenario_report \<and>
   length scenario_report = length scenario + 2 \<and>
   prefix (scenario ! 0) (scenario_report ! 0) \<and>
   prefix (scenario ! 1) (scenario_report ! 1) \<and>
   prefix (scenario ! 2) (scenario_report ! 2)"
proof -
  have h: "calculate scenario = Inr scenario_report"
    by code_simp
  have n: "length scenario = 3"
    by (simp add: scenario_def)
  from calculate_keeps_input [OF h] show ?thesis
    using h n by simp
qed

end
